theory Spec2Isabelle
  imports Complex_Main
begin

section \<open>Values of numpy's float64\<close>

text \<open>
  An entry of a numpy array is a real number or one of the three IEEE special values.
  Arithmetic on finite values is exact: rounding, overflow, underflow and the sign of
  zero are outside this model. The special values combine as IEEE 754 prescribes, and
  a division by zero yields an infinity or NaN (numpy warns, it does not raise).
\<close>

datatype fl = Fin real | PInf | NInf | NaN



definition inf_times :: "real \<Rightarrow> fl" where
  "inf_times a = (if a = 0 then NaN else if 0 < a then PInf else NInf)"

fun fadd :: "fl \<Rightarrow> fl \<Rightarrow> fl" where
  "fadd (Fin a) (Fin b) = Fin (a + b)"
| "fadd NaN _ = NaN"
| "fadd _ NaN = NaN"
| "fadd PInf NInf = NaN"
| "fadd NInf PInf = NaN"
| "fadd PInf _ = PInf"
| "fadd _ PInf = PInf"
| "fadd NInf _ = NInf"
| "fadd _ NInf = NInf"



fun fmul :: "fl \<Rightarrow> fl \<Rightarrow> fl" where
  "fmul (Fin a) (Fin b) = Fin (a * b)"
| "fmul NaN _ = NaN"
| "fmul _ NaN = NaN"
| "fmul PInf (Fin b) = inf_times b"
| "fmul (Fin a) PInf = inf_times a"
| "fmul NInf (Fin b) = inf_times (- b)"
| "fmul (Fin a) NInf = inf_times (- a)"
| "fmul PInf PInf = PInf"
| "fmul NInf NInf = PInf"
| "fmul PInf NInf = NInf"
| "fmul NInf PInf = NInf"

fun fdiv :: "fl \<Rightarrow> fl \<Rightarrow> fl" where
  "fdiv (Fin a) (Fin b) = (if b = 0 then inf_times a else Fin (a / b))"
| "fdiv NaN _ = NaN"
| "fdiv _ NaN = NaN"
| "fdiv (Fin a) PInf = Fin 0"
| "fdiv (Fin a) NInf = Fin 0"
| "fdiv PInf (Fin b) = (if b < 0 then NInf else PInf)"
| "fdiv NInf (Fin b) = (if b < 0 then PInf else NInf)"
| "fdiv PInf PInf = NaN"
| "fdiv PInf NInf = NaN"
| "fdiv NInf PInf = NaN"
| "fdiv NInf NInf = NaN"



text \<open>The comparison \<open>0 <= x\<close> of floats: false on NaN.\<close>

fun fnonneg :: "fl \<Rightarrow> bool" where
  "fnonneg (Fin a) = (0 \<le> a)"
| "fnonneg PInf = True"
| "fnonneg _ = False"

definition fsum :: "fl list \<Rightarrow> fl" where
  "fsum xs = foldl fadd (Fin 0) xs"

section \<open>Two-dimensional arrays\<close>

text \<open>
  A 2-D ndarray is the list of its rows. Its shape is (number of rows, length of the
  first row); the empty list stands for the array of shape (0, 0).
\<close>

type_synonym ndarray = "fl list list"

datatype error = ValueError | IndexError

definition nrows :: "ndarray \<Rightarrow> nat" where
  "nrows A = length A"

definition ncols :: "ndarray \<Rightarrow> nat" where
  "ncols A = (case A of [] \<Rightarrow> 0 | r # _ \<Rightarrow> length r)"

definition mk_array :: "nat \<Rightarrow> nat \<Rightarrow> (nat \<Rightarrow> nat \<Rightarrow> fl) \<Rightarrow> ndarray" where
  "mk_array r c f = map (\<lambda>i. map (\<lambda>j. f i j) [0..<c]) [0..<r]"

definition is_array :: "nat \<Rightarrow> nat \<Rightarrow> ndarray \<Rightarrow> bool" where
  "is_array r c A = (length A = r \<and> list_all (\<lambda>row. length row = c) A)"


text \<open>\<open>np.swapaxes(M, -1, -2)\<close> on a 2-D array: the transpose.\<close>

definition swapaxes :: "ndarray \<Rightarrow> ndarray" where
  "swapaxes A = mk_array (ncols A) (nrows A) (\<lambda>i j. A ! j ! i)"

text \<open>
  numpy's broadcasting of two 2-D operands: along each axis the extents must agree or
  one of them must be 1 (that operand is then repeated); otherwise \<open>+\<close> raises
  ValueError.
\<close>

definition bc_dim :: "nat \<Rightarrow> nat \<Rightarrow> nat option" where
  "bc_dim a b = (if a = b then Some a else if a = 1 then Some b
                 else if b = 1 then Some a else None)"

definition bc_get :: "ndarray \<Rightarrow> nat \<Rightarrow> nat \<Rightarrow> fl" where
  "bc_get A i j = A ! (if nrows A = 1 then 0 else i) ! (if ncols A = 1 then 0 else j)"

definition np_add :: "ndarray \<Rightarrow> ndarray \<Rightarrow> error + ndarray" where
  "np_add A B =
     (case bc_dim (nrows A) (nrows B) of
        None \<Rightarrow> Inl ValueError
      | Some r \<Rightarrow>
          (case bc_dim (ncols A) (ncols B) of
             None \<Rightarrow> Inl ValueError
           | Some c \<Rightarrow> Inr (mk_array r c (\<lambda>i j. fadd (bc_get A i j) (bc_get B i j)))))"

text \<open>A Python float times an array.\<close>

definition np_scale :: "fl \<Rightarrow> ndarray \<Rightarrow> ndarray" where
  "np_scale s A = map (map (fmul s)) A"

definition np_eye :: "nat \<Rightarrow> ndarray" where
  "np_eye K = mk_array K K (\<lambda>i j. if i = j then Fin 1 else Fin 0)"

section \<open>math_utils: symmetrize and ensure_spd\<close>

text \<open>
  Both functions work on the last two axes of their argument, so they also accept a
  stack of matrices; the model covers one matrix.
\<close>

text \<open>\<open>return 0.5 * (M + np.swapaxes(M, -1, -2))\<close>\<close>

definition symmetrize :: "ndarray \<Rightarrow> error + ndarray" where
  "symmetrize M =
     (case np_add M (swapaxes M) of
        Inl e \<Rightarrow> Inl e
      | Inr S \<Rightarrow> Inr (np_scale (Fin (1/2)) S))"

text \<open>
  \<open>Sigma = symmetrize(Sigma); K = Sigma.shape[-1];
  Sigma = Sigma + eps * np.eye(K, dtype=Sigma.dtype); return Sigma\<close>
\<close>

definition ensure_spd :: "ndarray \<Rightarrow> fl \<Rightarrow> error + ndarray" where
  "ensure_spd Sigma0 eps =
     (case symmetrize Sigma0 of
        Inl e \<Rightarrow> Inl e
      | Inr S \<Rightarrow> (let K = ncols S in np_add S (np_scale eps (np_eye K))))"



section \<open>Eigenvalues of a matrix of real numbers\<close>








section \<open>Configuration and agents\<close>

datatype SociologyPresets =
  CONSENSUS | POLARIZATION | ECHO_CHAMBERS | EXPERT_VS_NOVICE | BACKFIRE | NEUTRAL

record SociologyConfig =
  belief_dimensions :: int
  initial_belief_spread :: fl
  prior_strength :: fl
  social_influence_strength :: fl
  uncertainty_level :: fl
  learning_rate :: fl
  temperature :: fl

text \<open>
  \<open>AgentConfig\<close> and \<open>SystemConfig\<close> come from the module \<open>config\<close>, which is not among
  the sources; the records hold the fields that the sources set and read.
\<close>

record AgentConfig =
  config_K :: int
  mu_scale :: fl
  sigma_scale :: fl
  lr_mu_q :: fl
  lr_sigma_q :: fl

record SystemConfig =
  lambda_self :: fl
  lambda_belief_align :: fl
  lambda_prior_align :: fl
  kappa_beta :: fl

text \<open>The dataclass defaults of \<open>SociologyConfig\<close>.\<close>

definition SociologyConfig_default :: SociologyConfig where
  "SociologyConfig_default =
     \<lparr>belief_dimensions = 3, initial_belief_spread = Fin (5/10), prior_strength = Fin (3/10),
      social_influence_strength = Fin (5/10), uncertainty_level = Fin (3/10),
      learning_rate = Fin (1/10), temperature = Fin 1\<rparr>"

definition to_agent_config :: "SociologyConfig \<Rightarrow> AgentConfig" where
  "to_agent_config c =
     \<lparr>config_K = belief_dimensions c, mu_scale = initial_belief_spread c,
      sigma_scale = uncertainty_level c, lr_mu_q = learning_rate c,
      lr_sigma_q = fmul (learning_rate c) (Fin (1/10))\<rparr>"

definition to_system_config :: "SociologyConfig \<Rightarrow> SystemConfig" where
  "to_system_config c =
     \<lparr>lambda_self = Fin 1, lambda_belief_align = social_influence_strength c,
      lambda_prior_align = prior_strength c, kappa_beta = temperature c\<rparr>"

fun get_preset_config :: "SociologyPresets \<Rightarrow> SociologyConfig" where
  "get_preset_config CONSENSUS =
     SociologyConfig_default\<lparr>initial_belief_spread := Fin (1/10), prior_strength := Fin (1/10),
       social_influence_strength := Fin (8/10), uncertainty_level := Fin (2/10)\<rparr>"
| "get_preset_config POLARIZATION =
     SociologyConfig_default\<lparr>initial_belief_spread := Fin 1, prior_strength := Fin (5/10),
       social_influence_strength := Fin (3/10), uncertainty_level := Fin (3/10)\<rparr>"
| "get_preset_config ECHO_CHAMBERS =
     SociologyConfig_default\<lparr>initial_belief_spread := Fin (8/10), prior_strength := Fin (6/10),
       social_influence_strength := Fin (2/10), uncertainty_level := Fin (4/10)\<rparr>"
| "get_preset_config EXPERT_VS_NOVICE =
     SociologyConfig_default\<lparr>initial_belief_spread := Fin (3/10), prior_strength := Fin (4/10),
       social_influence_strength := Fin (5/10), uncertainty_level := Fin (5/10)\<rparr>"
| "get_preset_config BACKFIRE =
     SociologyConfig_default\<lparr>initial_belief_spread := Fin (5/10), prior_strength := Fin (9/10),
       social_influence_strength := Fin (1/10), uncertainty_level := Fin (1/10)\<rparr>"
| "get_preset_config NEUTRAL = SociologyConfig_default"

text \<open>
  \<open>np.random.default_rng(seed)\<close>: with \<open>None\<close> the generator is seeded from fresh
  operating-system entropy, with an integer it is determined by that integer; a negative
  integer is rejected with ValueError. The generator is described by how it was made.
\<close>

datatype Generator = Unseeded | Seeded int

definition default_rng :: "int option \<Rightarrow> error + Generator" where
  "default_rng seed =
     (case seed of
        None \<Rightarrow> Inr Unseeded
      | Some s \<Rightarrow> (if s < 0 then Inl ValueError else Inr (Seeded s)))"

text \<open>
  Modelled from the spec: the class \<open>Agent\<close> (module \<open>agent.agents\<close>, not among the
  sources). An agent has an integer identity, its configuration, its random source, the
  belief dimension \<open>K\<close> and the belief mean \<open>mu_q\<close>, a vector of \<open>K\<close> numbers or a
  higher-order tensor whose last axis has extent \<open>K\<close>. \<open>mu_q\<close> is held as the list of
  its vectors along the last axis (a plain vector is one such vector). The constructor
  keeps the three arguments it is called with, takes \<open>K\<close> from the configuration and
  draws the initial mean from the random source; the drawing is the parameter
  \<open>draw\<close>.
\<close>

record Agent =
  agent_id :: int
  agent_config :: AgentConfig
  rng :: Generator
  K :: int
  mu_q :: "fl list list"

definition Agent_init ::
  "(AgentConfig \<Rightarrow> Generator \<Rightarrow> fl list list) \<Rightarrow> int \<Rightarrow> AgentConfig \<Rightarrow> Generator \<Rightarrow> Agent" where
  "Agent_init draw i c g =
     \<lparr>agent_id = i, agent_config = c, rng = g, K = config_K c, mu_q = draw c g\<rparr>"

section \<open>epistemic_inertia: create_agents\<close>

text \<open>\<open>seed + i if seed else None\<close>: \<open>None\<close> and \<open>0\<close> are both false in Python.\<close>

definition agent_seed :: "int option \<Rightarrow> int \<Rightarrow> int option" where
  "agent_seed seed i =
     (case seed of None \<Rightarrow> None | Some s \<Rightarrow> (if s = 0 then None else Some (s + i)))"

text \<open>
  One pass through the body of \<open>for i in range(n_agents)\<close>. The state is the
  configuration object \<open>agent_config\<close>, which the loop overwrites in place, and the
  list \<open>agents\<close> built so far. An agent's record holds the configuration as it is when
  its constructor runs. The comparison \<open>i < n_agents * 0.2\<close> is taken in exact
  arithmetic.
  \<^verbatim>\<open>
  if preset == SociologyPresets.EXPERT_VS_NOVICE:
      if i < n_agents * 0.2: agent_config.sigma_scale = 0.1
      else:                  agent_config.sigma_scale = 0.5
  if preset == SociologyPresets.POLARIZATION:
      agent_rng = np.random.default_rng(seed + i if seed else None)
      if i < n_agents // 2:  agent_config.mu_scale = 0.5
      else:                  agent_config.mu_scale = -0.5
  agent = Agent(agent_id=i, config=agent_config,
                rng=np.random.default_rng(seed + i if seed else None))
  agents.append(agent)
  \<close>
\<close>

definition create_agents_step ::
  "(AgentConfig \<Rightarrow> Generator \<Rightarrow> fl list list) \<Rightarrow> int \<Rightarrow> SociologyPresets \<Rightarrow> int option \<Rightarrow> int
     \<Rightarrow> AgentConfig \<times> Agent list \<Rightarrow> error + AgentConfig \<times> Agent list" where
  "create_agents_step draw n_agents preset seed i st =
     (let c0 = fst st;
          c1 = (if preset = EXPERT_VS_NOVICE
                then (if real_of_int i < real_of_int n_agents * (2/10)
                      then c0\<lparr>sigma_scale := Fin (1/10)\<rparr>
                      else c0\<lparr>sigma_scale := Fin (5/10)\<rparr>)
                else c0)
      in case (if preset = POLARIZATION
               then (case default_rng (agent_seed seed i) of
                       Inl e \<Rightarrow> Inl e
                     | Inr agent_rng \<Rightarrow>
                         Inr (if i < n_agents div 2
                              then c1\<lparr>mu_scale := Fin (5/10)\<rparr>
                              else c1\<lparr>mu_scale := Fin (- (5/10))\<rparr>))
               else Inr c1) of
           Inl e \<Rightarrow> Inl e
         | Inr c2 \<Rightarrow>
             (case default_rng (agent_seed seed i) of
                Inl e \<Rightarrow> Inl e
              | Inr g \<Rightarrow> Inr (c2, snd st @ [Agent_init draw i c2 g])))"

fun create_agents_loop ::
  "(AgentConfig \<Rightarrow> Generator \<Rightarrow> fl list list) \<Rightarrow> int \<Rightarrow> SociologyPresets \<Rightarrow> int option \<Rightarrow> int list
     \<Rightarrow> AgentConfig \<times> Agent list \<Rightarrow> error + AgentConfig \<times> Agent list" where
  "create_agents_loop draw n_agents preset seed [] st = Inr st"
| "create_agents_loop draw n_agents preset seed (i # rest) st =
     (case create_agents_step draw n_agents preset seed i st of
        Inl e \<Rightarrow> Inl e
      | Inr st' \<Rightarrow> create_agents_loop draw n_agents preset seed rest st')"

text \<open>
  \<^verbatim>\<open>
  if config is None: config = get_preset_config(preset)
  agent_config = config.to_agent_config()
  rng = np.random.default_rng(seed)
  agents = []
  for i in range(n_agents): ...
  return agents
  \<close>
  \<open>range(n_agents)\<close> is empty for a negative \<open>n_agents\<close>.
\<close>

definition create_agents ::
  "(AgentConfig \<Rightarrow> Generator \<Rightarrow> fl list list) \<Rightarrow> int \<Rightarrow> SociologyPresets
     \<Rightarrow> SociologyConfig option \<Rightarrow> int option \<Rightarrow> error + Agent list" where
  "create_agents draw n_agents preset config0 seed =
     (let config1 = (case config0 of None \<Rightarrow> get_preset_config preset | Some c \<Rightarrow> c);
          agent_config = to_agent_config config1
      in case default_rng seed of
           Inl e \<Rightarrow> Inl e
         | Inr rng0 \<Rightarrow>
             (case create_agents_loop draw n_agents preset seed
                     (map int [0..<nat n_agents]) (agent_config, []) of
                Inl e \<Rightarrow> Inl e
              | Inr st \<Rightarrow> Inr (snd st)))"

text \<open>A drawing of the initial mean used in the examples: the vector of \<open>K\<close> copies of \<open>mu_scale\<close>.\<close>

definition example_draw :: "AgentConfig \<Rightarrow> Generator \<Rightarrow> fl list list" where
  "example_draw c g = [replicate (nat (config_K c)) (mu_scale c)]"

text \<open>The generator that agent \<open>i\<close> is given when the seed is accepted.\<close>

definition agent_generator :: "int option \<Rightarrow> int \<Rightarrow> Generator" where
  "agent_generator seed i = (case agent_seed seed i of None \<Rightarrow> Unseeded | Some s \<Rightarrow> Seeded s)"

definition valid_seed :: "int option \<Rightarrow> bool" where
  "valid_seed seed = (case seed of None \<Rightarrow> True | Some s \<Rightarrow> 0 \<le> s)"

text \<open>
  Modelled from the spec: \<open>MultiAgentSystem\<close> (module \<open>agent.system\<close>, not among the
  sources) owns the ordered collection of agents and the configuration bundle; the
  sources read its attributes \<open>agents\<close>, \<open>n_agents\<close> and \<open>config\<close>.
\<close>

record MultiAgentSystem =
  agents :: "Agent list"
  n_agents :: nat
  config :: SystemConfig

section \<open>epistemic_inertia: compute_social_influence_matrix\<close>




text \<open>
  A system of two agents used in the examples, with a given temperature, and a KL
  matrix of two beliefs at divergence 1 from each other and 0 from themselves.
\<close>

definition example_agent :: "int \<Rightarrow> fl list \<Rightarrow> Agent" where
  "example_agent i mu =
     \<lparr>agent_id = i, agent_config = to_agent_config SociologyConfig_default,
      rng = Unseeded, K = int (length mu), mu_q = [mu]\<rparr>"

definition example_system :: "fl \<Rightarrow> MultiAgentSystem" where
  "example_system kappa =
     \<lparr>agents = [example_agent 0 [Fin 0, Fin 0], example_agent 1 [Fin 1, Fin 0]], n_agents = 2,
      config = (to_system_config SociologyConfig_default)\<lparr>kappa_beta := kappa\<rparr>\<rparr>"


section \<open>epistemic_inertia: compute_epistemic_inertia\<close>

text \<open>
  A Python slice \<open>xs[a:b]\<close>: a negative bound counts from the end, and every bound is
  clipped to the range of the sequence, so a slice never raises.
\<close>

definition slice_bound :: "nat \<Rightarrow> int \<Rightarrow> nat" where
  "slice_bound len a = (if a < 0 then nat (int len + a) else min len (nat a))"

definition py_slice :: "'a list \<Rightarrow> int \<Rightarrow> int \<Rightarrow> 'a list" where
  "py_slice xs a b =
     (let lo = slice_bound (length xs) a; hi = slice_bound (length xs) b
      in take (hi - lo) (drop lo xs))"

text \<open>\<open>np.trace\<close> of a 2-D array: the sum along the main diagonal.\<close>

definition np_trace :: "ndarray \<Rightarrow> fl" where
  "np_trace A = fsum (map (\<lambda>d. A ! d ! d) [0..<min (nrows A) (ncols A)])"

text \<open>
  \<open>build_mu_mass_matrix\<close> (module \<open>geometry.multi_agent_mass_matrix\<close>) is not among the
  sources: it is the parameter \<open>build_mu_mass_matrix\<close>, which returns a 2-D array or
  raises. \<open>system.agents[0]\<close> raises IndexError on an empty list.
  \<^verbatim>\<open>
  M = build_mu_mass_matrix(system)
  n_agents = system.n_agents
  K = system.agents[0].K
  inertia = np.zeros(n_agents)
  for i in range(n_agents):
      block = M[i*K:(i+1)*K, i*K:(i+1)*K]
      inertia[i] = np.trace(block) / K
  return inertia
  \<close>
\<close>

definition compute_epistemic_inertia ::
  "(MultiAgentSystem \<Rightarrow> error + ndarray) \<Rightarrow> MultiAgentSystem \<Rightarrow> error + fl list" where
  "compute_epistemic_inertia build_mu_mass_matrix system =
     (case build_mu_mass_matrix system of
        Inl e \<Rightarrow> Inl e
      | Inr M \<Rightarrow>
          (case agents system of
             [] \<Rightarrow> Inl IndexError
           | a0 # _ \<Rightarrow>
               Inr (map (\<lambda>i. let block = map (\<lambda>row. py_slice row (i * K a0) ((i + 1) * K a0))
                                            (py_slice M (i * K a0) ((i + 1) * K a0))
                              in fdiv (np_trace block) (Fin (real_of_int (K a0))))
                        (map int [0..<n_agents system]))))"

text \<open>
  The specification's inertia score of agent \<open>i\<close>: the trace of the \<open>i\<close>-th
  \<open>k\<close>-by-\<open>k\<close> diagonal block of \<open>M\<close>, divided by \<open>k\<close>.
\<close>

definition spec_inertia :: "ndarray \<Rightarrow> nat \<Rightarrow> nat \<Rightarrow> fl" where
  "spec_inertia M k i =
     fdiv (fsum (map (\<lambda>d. M ! (i * k + d) ! (i * k + d)) [0..<k])) (Fin (real k))"

text \<open>A mass matrix for the two-agent example system, of belief dimension 2.\<close>

definition example_mass :: "MultiAgentSystem \<Rightarrow> error + ndarray" where
  "example_mass system =
     Inr [[Fin 1, Fin 0, Fin 0, Fin 0],
          [Fin 0, Fin 3, Fin 0, Fin 0],
          [Fin 0, Fin 0, Fin 2, Fin 1],
          [Fin 0, Fin 0, Fin 1, Fin 6]]"

section \<open>epistemic_inertia: compute_polarization\<close>







section \<open>Properties of the array operations\<close>


lemma nth_mk_array: "i < r \<Longrightarrow> j < c \<Longrightarrow> mk_array r c f ! i ! j = f i j"
  by (simp add: mk_array_def)

lemma length_nth_mk_array: "i < r \<Longrightarrow> length (mk_array r c f ! i) = c"
  by (simp add: mk_array_def)

lemma is_array_mk_array: "is_array r c (mk_array r c f)"
  by (simp add: is_array_def mk_array_def list_all_iff)

lemma mk_array_cong:
  "(\<And>i j. i < r \<Longrightarrow> j < c \<Longrightarrow> f i j = g i j) \<Longrightarrow> mk_array r c f = mk_array r c g"
  by (simp add: mk_array_def)

lemma is_array_row: "is_array r c A \<Longrightarrow> i < r \<Longrightarrow> length (A ! i) = c"
  by (auto simp: is_array_def list_all_iff)

lemma is_array_nrows: "is_array r c A \<Longrightarrow> nrows A = r"
  by (simp add: is_array_def nrows_def)

lemma is_array_ncols: "is_array r c A \<Longrightarrow> 0 < r \<Longrightarrow> ncols A = c"
  by (cases A) (auto simp: is_array_def ncols_def)

lemma is_square_ncols: "is_array n n A \<Longrightarrow> ncols A = n"
  by (cases A) (auto simp: is_array_def ncols_def)

lemma array_eqI:
  assumes "is_array r c A" "is_array r c B"
    and "\<And>i j. i < r \<Longrightarrow> j < c \<Longrightarrow> A ! i ! j = B ! i ! j"
  shows "A = B"
proof (rule nth_equalityI)
  show "length A = length B" using assms(1,2) by (simp add: is_array_def)
next
  fix i assume "i < length A"
  then have i: "i < r" using assms(1) by (simp add: is_array_def)
  show "A ! i = B ! i"
  proof (rule nth_equalityI)
    show "length (A ! i) = length (B ! i)"
      using is_array_row [OF assms(1) i] is_array_row [OF assms(2) i] by simp
  next
    fix j assume "j < length (A ! i)"
    then have "j < c" using is_array_row [OF assms(1) i] by simp
    then show "A ! i ! j = B ! i ! j" using assms(3) i by simp
  qed
qed

lemma mk_array_nth: "is_array r c A \<Longrightarrow> mk_array r c (\<lambda>i j. A ! i ! j) = A"
  by (rule array_eqI [of r c]) (simp_all add: is_array_mk_array nth_mk_array)


lemma bc_get_square:
  "is_array n n A \<Longrightarrow> i < n \<Longrightarrow> j < n \<Longrightarrow> bc_get A i j = A ! i ! j"
  by (auto simp: bc_get_def is_array_nrows is_square_ncols)

lemma np_add_square:
  assumes "is_array n n A" "is_array n n B"
  shows "np_add A B = Inr (mk_array n n (\<lambda>i j. fadd (A ! i ! j) (B ! i ! j)))"
proof -
  have "mk_array n n (\<lambda>i j. fadd (bc_get A i j) (bc_get B i j))
      = mk_array n n (\<lambda>i j. fadd (A ! i ! j) (B ! i ! j))"
    by (rule mk_array_cong) (simp add: bc_get_square [OF assms(1)] bc_get_square [OF assms(2)])
  then show ?thesis
    using assms by (simp add: np_add_def bc_dim_def is_array_nrows is_square_ncols)
qed

lemma np_scale_mk_array: "np_scale s (mk_array r c f) = mk_array r c (\<lambda>i j. fmul s (f i j))"
  by (simp add: np_scale_def mk_array_def)

lemma swapaxes_square: "is_array n n M \<Longrightarrow> swapaxes M = mk_array n n (\<lambda>i j. M ! j ! i)"
  by (simp add: swapaxes_def is_array_nrows is_square_ncols)

lemma symmetrize_square:
  assumes "is_array n n M"
  shows "symmetrize M = Inr (mk_array n n (\<lambda>i j. fmul (Fin (1/2)) (fadd (M ! i ! j) (M ! j ! i))))"
proof -
  have "np_add M (swapaxes M) = Inr (mk_array n n (\<lambda>i j. fadd (M ! i ! j) (swapaxes M ! i ! j)))"
    using assms by (intro np_add_square) (simp_all add: swapaxes_square is_array_mk_array)
  also have "mk_array n n (\<lambda>i j. fadd (M ! i ! j) (swapaxes M ! i ! j))
           = mk_array n n (\<lambda>i j. fadd (M ! i ! j) (M ! j ! i))"
    by (rule mk_array_cong) (simp add: swapaxes_square [OF assms] nth_mk_array)
  finally show ?thesis
    by (simp add: symmetrize_def np_scale_mk_array)
qed






lemma ensure_spd_square:
  assumes "is_array n n M"
  shows "ensure_spd M eps = Inr (mk_array n n (\<lambda>i j.
           fadd (fmul (Fin (1/2)) (fadd (M ! i ! j) (M ! j ! i)))
                (fmul eps (if i = j then Fin 1 else Fin 0))))"
proof -
  let ?S = "mk_array n n (\<lambda>i j. fmul (Fin (1/2)) (fadd (M ! i ! j) (M ! j ! i)))"
  let ?E = "np_scale eps (np_eye n)"
  have S: "is_array n n ?S" by (rule is_array_mk_array)
  have E: "?E = mk_array n n (\<lambda>i j. fmul eps (if i = j then Fin 1 else Fin 0))"
    by (simp add: np_eye_def np_scale_mk_array)
  have "np_add ?S ?E = Inr (mk_array n n (\<lambda>i j. fadd (?S ! i ! j) (?E ! i ! j)))"
    by (rule np_add_square [OF S]) (simp add: E is_array_mk_array)
  also have "mk_array n n (\<lambda>i j. fadd (?S ! i ! j) (?E ! i ! j))
     = mk_array n n (\<lambda>i j. fadd (fmul (Fin (1/2)) (fadd (M ! i ! j) (M ! j ! i)))
                (fmul eps (if i = j then Fin 1 else Fin 0)))"
    by (rule mk_array_cong) (simp add: E nth_mk_array)
  finally show ?thesis
    using assms by (simp add: ensure_spd_def symmetrize_square is_square_ncols [OF S])
qed

lemma fadd_NaN_right: "fadd x NaN = NaN"
  by (cases x) simp_all

lemma fmul_NaN_right: "fmul x NaN = NaN"
  by (cases x) simp_all

lemma fadd_NaN_left: "fadd NaN x = NaN"
  by simp

text \<open>
  C2 (as amended): \<open>ensure_spd\<close> checks nothing about the entries. For every square
  array, NaN and infinite entries included, and every \<open>eps\<close> it returns an array of
  the same shape and raises no error; a NaN at position (i, j) or (j, i) of the input
  is a NaN at position (i, j) of the result.
\<close>

theorem ensure_spd_no_validation:
  assumes "is_array n n M"
  shows "\<exists>R. ensure_spd M eps = Inr R \<and> is_array n n R
           \<and> (\<forall>i<n. \<forall>j<n. M ! i ! j = NaN \<or> M ! j ! i = NaN \<longrightarrow> R ! i ! j = NaN)"
proof (intro exI conjI allI impI)
  show "ensure_spd M eps = Inr (mk_array n n (\<lambda>i j.
           fadd (fmul (Fin (1/2)) (fadd (M ! i ! j) (M ! j ! i)))
                (fmul eps (if i = j then Fin 1 else Fin 0))))"
    using assms by (rule ensure_spd_square)
  show "is_array n n (mk_array n n (\<lambda>i j.
           fadd (fmul (Fin (1/2)) (fadd (M ! i ! j) (M ! j ! i)))
                (fmul eps (if i = j then Fin 1 else Fin 0))))"
    by (rule is_array_mk_array)
next
  fix i j assume ij: "i < n" "j < n" and nan: "M ! i ! j = NaN \<or> M ! j ! i = NaN"
  from nan have "fadd (M ! i ! j) (M ! j ! i) = NaN"
    by (auto simp: fadd_NaN_right)
  then show "mk_array n n (\<lambda>i j.
           fadd (fmul (Fin (1/2)) (fadd (M ! i ! j) (M ! j ! i)))
                (fmul eps (if i = j then Fin 1 else Fin 0))) ! i ! j = NaN"
    using ij by (simp add: nth_mk_array)
qed

lemma upt_2: "[0..<2] = [0, 1]"
  by (simp add: upt_rec)

theorem ensure_spd_no_validation_witness:
  "is_array 2 2 [[Fin 1, NaN], [PInf, Fin 1]]
   \<and> (\<exists>R. ensure_spd [[Fin 1, NaN], [PInf, Fin 1]] (Fin (1/1000000)) = Inr R
          \<and> R ! 0 ! 1 = NaN)"
proof -
  have a: "is_array 2 2 [[Fin 1, NaN], [PInf, Fin 1]]" by (simp add: is_array_def)
  show ?thesis
    using a ensure_spd_no_validation [OF a, of "Fin (1/1000000)"] by auto
qed

text \<open>
  C2 as stated fails: an input with a NaN and an infinite entry is answered with an
  array, not with an error, and the array carries NaN.
\<close>

theorem ensure_spd_nan_counterexample:
  "ensure_spd [[Fin 1, NaN], [PInf, Fin 1]] (Fin (1/1000000))
     = Inr [[Fin (1000001/1000000), NaN], [NaN, Fin (1000001/1000000)]]"
  by (simp add: ensure_spd_square [of 2] is_array_def mk_array_def upt_2)








































lemma default_rng_agent_seed:
  assumes "valid_seed seed" "0 \<le> i"
  shows "default_rng (agent_seed seed i) = Inr (agent_generator seed i)"
  using assms
  by (auto simp: valid_seed_def agent_seed_def default_rng_def agent_generator_def
      split: option.splits)

lemma create_agents_step_returns:
  assumes "valid_seed seed" "0 \<le> i"
  shows "\<exists>c' a. create_agents_step draw n preset seed i (c, acc) = Inr (c', acc @ [a])
           \<and> agent_id a = i \<and> rng a = agent_generator seed i"
  by (simp add: create_agents_step_def default_rng_agent_seed [OF assms] Agent_init_def Let_def)

lemma create_agents_loop_returns:
  assumes "valid_seed seed" "\<forall>i\<in>set ids. 0 \<le> i"
  shows "\<exists>c' new. create_agents_loop draw n preset seed ids (c, acc) = Inr (c', acc @ new)
           \<and> map agent_id new = ids \<and> map rng new = map (agent_generator seed) ids"
  using assms(2)
proof (induction ids arbitrary: c acc)
  case Nil
  then show ?case by simp
next
  case (Cons i rest)
  then have i: "0 \<le> i" and rest: "\<forall>i\<in>set rest. 0 \<le> i" by simp_all
  obtain c1 a where step: "create_agents_step draw n preset seed i (c, acc) = Inr (c1, acc @ [a])"
    and a: "agent_id a = i" "rng a = agent_generator seed i"
    using create_agents_step_returns [OF assms(1) i] by blast
  obtain c2 new where loop: "create_agents_loop draw n preset seed rest (c1, acc @ [a])
       = Inr (c2, (acc @ [a]) @ new)"
    and new: "map agent_id new = rest" "map rng new = map (agent_generator seed) rest"
    using Cons.IH [OF rest] by blast
  show ?case
  proof (intro exI conjI)
    show "create_agents_loop draw n preset seed (i # rest) (c, acc) = Inr (c2, acc @ (a # new))"
      by (simp add: step loop)
    show "map agent_id (a # new) = i # rest" by (simp add: a new)
    show "map rng (a # new) = map (agent_generator seed) (i # rest)" by (simp add: a new)
  qed
qed

lemma create_agents_returns:
  assumes "valid_seed seed"
  shows "\<exists>agents. create_agents draw n preset config0 seed = Inr agents
           \<and> map agent_id agents = map int [0..<nat n]
           \<and> map rng agents = map (agent_generator seed) (map int [0..<nat n])"
proof -
  have ok: "\<exists>g. default_rng seed = Inr g"
    using assms by (auto simp: valid_seed_def default_rng_def split: option.splits)
  then obtain g where g: "default_rng seed = Inr g" by blast
  define c where "c = to_agent_config (case config0 of None \<Rightarrow> get_preset_config preset | Some c \<Rightarrow> c)"
  have "\<forall>i\<in>set (map int [0..<nat n]). 0 \<le> i" by simp
  from create_agents_loop_returns [OF assms this, of draw n preset c "[]"]
  obtain c' new where loop: "create_agents_loop draw n preset seed (map int [0..<nat n]) (c, [])
      = Inr (c', new)"
    and new: "map agent_id new = map int [0..<nat n]"
      "map rng new = map (agent_generator seed) (map int [0..<nat n])"
    by auto
  have "create_agents draw n preset config0 seed = Inr new"
    using loop g by (simp add: create_agents_def Let_def c_def)
  with new show ?thesis by blast
qed

lemma create_agents_invalid_seed:
  "\<not> valid_seed seed \<Longrightarrow> create_agents draw n preset config0 seed = Inl ValueError"
  by (auto simp: valid_seed_def create_agents_def default_rng_def Let_def split: option.splits)

text \<open>
  C8: for every \<open>n_agents >= 0\<close>, every preset and every configuration, with a seed that
  numpy accepts (\<open>None\<close> or a non-negative integer), \<open>create_agents\<close> returns a list of
  exactly \<open>n_agents\<close> agents whose identities are \<open>0, 1, ..., n_agents - 1\<close> in list order.
\<close>

theorem create_agents_ids:
  assumes "0 \<le> n" and "valid_seed seed"
  shows "\<exists>agents. create_agents draw n preset config0 seed = Inr agents
           \<and> int (length agents) = n
           \<and> map agent_id agents = map int [0..<nat n]"
proof -
  obtain agents where r: "create_agents draw n preset config0 seed = Inr agents"
    and ids: "map agent_id agents = map int [0..<nat n]"
    using create_agents_returns [OF assms(2)] by blast
  from ids have "length agents = nat n"
    by (metis length_map length_upt diff_zero)
  with assms(1) r ids show ?thesis by simp
qed

theorem create_agents_ids_witness:
  "(0::int) \<le> 3 \<and> valid_seed (Some 7)
   \<and> (\<exists>agents. create_agents example_draw 3 POLARIZATION None (Some 7) = Inr agents
          \<and> int (length agents) = 3 \<and> map agent_id agents = [0, 1, 2])"
proof -
  have a: "(0::int) \<le> 3" by simp
  have b: "valid_seed (Some 7)" by (simp add: valid_seed_def)
  have c: "map int [0..<nat 3] = [0, 1, 2]" by (simp add: upt_rec)
  show ?thesis
    using a b create_agents_ids [OF a b, of example_draw POLARIZATION None]
    unfolding c by simp
qed

text \<open>
  C9: agent \<open>i\<close>'s random source is made from \<open>seed + i\<close> exactly when the seed is a
  nonzero integer; with seed \<open>None\<close> or \<open>0\<close> it is made from \<open>None\<close>, that is from fresh
  entropy, so a run with seed \<open>0\<close> does not fix the agents' random sources.
\<close>

theorem create_agents_generators:
  assumes "create_agents draw n preset config0 seed = Inr ags" and "i < length ags"
  shows "rng (ags ! i)
       = (case seed of
            None \<Rightarrow> Unseeded
          | Some s \<Rightarrow> (if s = 0 then Unseeded else Seeded (s + int i)))"
proof -
  have v: "valid_seed seed"
    using assms(1) create_agents_invalid_seed [of seed draw n preset config0] by auto
  obtain ags' where r: "create_agents draw n preset config0 seed = Inr ags'"
    and g: "map rng ags' = map (agent_generator seed) (map int [0..<nat n])"
    using create_agents_returns [OF v] by blast
  from r assms(1) have eq: "ags' = ags" by simp
  have len: "length ags = nat n"
    using g unfolding eq by (metis length_map length_upt diff_zero)
  have "rng (ags ! i) = map rng ags ! i"
    using assms(2) by simp
  also have "\<dots> = agent_generator seed (int i)"
    using g assms(2) len unfolding eq by simp
  finally show ?thesis
    by (simp add: agent_generator_def agent_seed_def split: option.splits)
qed

theorem create_agents_generators_witness:
  "(\<exists>agents. create_agents example_draw 3 POLARIZATION None (Some 0) = Inr agents
       \<and> 2 < length agents \<and> rng (agents ! 2) = Unseeded)
   \<and> (\<exists>agents. create_agents example_draw 3 POLARIZATION None (Some 7) = Inr agents
       \<and> 2 < length agents \<and> rng (agents ! 2) = Seeded 9)
   \<and> (\<exists>agents. create_agents example_draw 3 POLARIZATION None None = Inr agents
       \<and> 2 < length agents \<and> rng (agents ! 2) = Unseeded)"
proof -
  have w: "\<exists>agents. create_agents example_draw 3 POLARIZATION None seed = Inr agents
       \<and> 2 < length agents
       \<and> rng (agents ! 2) = (case seed of None \<Rightarrow> Unseeded
             | Some s \<Rightarrow> (if s = 0 then Unseeded else Seeded (s + int 2)))"
    if v: "valid_seed seed" for seed
  proof -
    obtain agents where r: "create_agents example_draw 3 POLARIZATION None seed = Inr agents"
      and ids: "map agent_id agents = map int [0..<nat 3]"
      using create_agents_returns [OF v] by blast
    from ids have "length agents = 3"
      by (metis length_map length_upt diff_zero nat_numeral)
    then have l: "2 < length agents" by simp
    from create_agents_generators [OF r l] r l show ?thesis by blast
  qed
  show ?thesis
    using w [of "Some 0"] w [of "Some 7"] w [of None] by (simp add: valid_seed_def)
qed

lemma py_slice_block:
  assumes "(i + 1) * k \<le> length xs"
  shows "py_slice xs (int i * int k) ((int i + 1) * int k) = take k (drop (i * k) xs)"
proof -
  have lo: "slice_bound (length xs) (int i * int k) = i * k"
  proof -
    have "i * k \<le> length xs" using assms by simp
    moreover have "nat (int i * int k) = i * k"
      by (simp add: nat_mult_distrib)
    moreover have "\<not> int i * int k < 0"
      by (simp add: not_less)
    ultimately show ?thesis by (simp add: slice_bound_def)
  qed
  have hi: "slice_bound (length xs) ((int i + 1) * int k) = (i + 1) * k"
  proof -
    have "(int i + 1) * int k = int ((i + 1) * k)" by (simp add: algebra_simps)
    then show ?thesis using assms by (simp add: slice_bound_def del: of_nat_mult of_nat_add)
  qed
  show ?thesis by (simp add: py_slice_def lo hi)
qed

lemma block_trace:
  assumes M: "is_array r c M" and r: "(i + 1) * k \<le> r" and c: "(i + 1) * k \<le> c" and k: "0 < k"
  shows "np_trace (map (\<lambda>row. py_slice row (int i * int k) ((int i + 1) * int k))
                       (py_slice M (int i * int k) ((int i + 1) * int k)))
       = fsum (map (\<lambda>d. M ! (i * k + d) ! (i * k + d)) [0..<k])"
proof -
  let ?rows = "take k (drop (i * k) M)"
  let ?B = "map (\<lambda>row. py_slice row (int i * int k) ((int i + 1) * int k)) ?rows"
  have len: "length M = r" and rowlen: "\<And>m. m < r \<Longrightarrow> length (M ! m) = c"
    using M by (simp_all add: is_array_def list_all_length)
  have rows: "py_slice M (int i * int k) ((int i + 1) * int k) = ?rows"
    using r len by (intro py_slice_block) simp
  have ik: "i * k + k \<le> length M" using r len by simp
  have "k \<le> length M - i * k" using ik by arith
  then have lrows: "length ?rows = k" by simp
  have nthrow: "?rows ! d = M ! (i * k + d)" if "d < k" for d
    using that r len by simp
  have Brow: "?B ! d = take k (drop (i * k) (M ! (i * k + d)))" if d: "d < k" for d
  proof -
    have "i * k + d < r" using d r by simp
    then have "(i + 1) * k \<le> length (M ! (i * k + d))" using rowlen c by simp
    then show ?thesis using d lrows nthrow by (simp add: py_slice_block)
  qed
  have Bdd: "?B ! d ! d = M ! (i * k + d) ! (i * k + d)" if d: "d < k" for d
  proof -
    have "i * k + d < r" using d r by simp
    then have "length (M ! (i * k + d)) = c" using rowlen by simp
    then show ?thesis using d c by (simp add: Brow)
  qed
  have nr: "nrows ?B = k" using lrows by (simp add: nrows_def)
  have nc: "ncols ?B = k"
  proof -
    have "?B \<noteq> []" using lrows k by auto
    then have "ncols ?B = length (?B ! 0)"
      by (cases ?B) (simp_all add: ncols_def)
    also have "\<dots> = k"
    proof -
      have "i * k + 0 < r" using k r by simp
      then have "length (M ! (i * k)) = c" using rowlen by simp
      then show ?thesis using c k by (simp add: Brow)
    qed
    finally show ?thesis .
  qed
  have "np_trace ?B = fsum (map (\<lambda>d. ?B ! d ! d) [0..<k])"
    by (simp add: np_trace_def nr nc)
  also have "map (\<lambda>d. ?B ! d ! d) [0..<k] = map (\<lambda>d. M ! (i * k + d) ! (i * k + d)) [0..<k]"
    by (rule map_cong) (simp_all add: Bdd)
  finally show ?thesis by (simp add: rows)
qed

text \<open>
  C5: for a system of \<open>n\<close> agents whose belief dimension is \<open>k\<close> (at least one agent,
  \<open>k >= 1\<close>) and a mass matrix that holds the \<open>n\<close> diagonal blocks,
  \<open>compute_epistemic_inertia\<close> returns an array of length \<open>n\<close> whose \<open>i\<close>-th entry is
  the trace of the \<open>i\<close>-th \<open>k\<close>-by-\<open>k\<close> diagonal block divided by \<open>k\<close>.
\<close>

theorem compute_epistemic_inertia_block_traces:
  assumes build: "build_mu_mass_matrix system = Inr M"
    and ags: "agents system = a0 # rest" and K: "K a0 = int k" and k: "0 < k"
    and M: "is_array r c M" and r: "n_agents system * k \<le> r" and c: "n_agents system * k \<le> c"
  shows "\<exists>inertia. compute_epistemic_inertia build_mu_mass_matrix system = Inr inertia
           \<and> length inertia = n_agents system
           \<and> inertia = map (spec_inertia M k) [0..<n_agents system]"
proof -
  have entry: "fdiv (np_trace (map (\<lambda>row. py_slice row (int i * K a0) ((int i + 1) * K a0))
                              (py_slice M (int i * K a0) ((int i + 1) * K a0))))
                (Fin (real_of_int (K a0))) = spec_inertia M k i"
    if i: "i < n_agents system" for i
  proof -
    have "(i + 1) * k \<le> n_agents system * k" using i by (intro mult_le_mono1) simp
    then have "(i + 1) * k \<le> r" "(i + 1) * k \<le> c" using r c by simp_all
    from block_trace [OF M this k] show ?thesis
      by (simp add: K spec_inertia_def)
  qed
  have "map (\<lambda>i. let block = map (\<lambda>row. py_slice row (i * K a0) ((i + 1) * K a0))
                              (py_slice M (i * K a0) ((i + 1) * K a0))
                in fdiv (np_trace block) (Fin (real_of_int (K a0))))
            (map int [0..<n_agents system])
      = map (spec_inertia M k) [0..<n_agents system]"
    unfolding map_map Let_def by (rule map_cong) (simp_all add: entry del: of_nat_add of_nat_mult)
  then have "compute_epistemic_inertia build_mu_mass_matrix system
      = Inr (map (spec_inertia M k) [0..<n_agents system])"
    by (simp add: compute_epistemic_inertia_def build ags)
  then show ?thesis by simp
qed

theorem compute_epistemic_inertia_block_traces_witness:
  "compute_epistemic_inertia example_mass (example_system (Fin 1)) = Inr [Fin 2, Fin 4]"
proof -
  let ?M = "[[Fin 1, Fin 0, Fin 0, Fin 0], [Fin 0, Fin 3, Fin 0, Fin 0],
             [Fin 0, Fin 0, Fin 2, Fin 1], [Fin 0, Fin 0, Fin 1, Fin 6]]"
  have build: "example_mass (example_system (Fin 1)) = Inr ?M" by (simp add: example_mass_def)
  have ags: "agents (example_system (Fin 1))
      = example_agent 0 [Fin 0, Fin 0] # [example_agent 1 [Fin 1, Fin 0]]"
    by (simp add: example_system_def)
  have K: "K (example_agent 0 [Fin 0, Fin 0]) = int 2" by (simp add: example_agent_def)
  have k: "(0::nat) < 2" by simp
  have M: "is_array 4 4 ?M" by (simp add: is_array_def)
  have n: "n_agents (example_system (Fin 1)) * 2 \<le> 4" by (simp add: example_system_def)
  have v: "map (spec_inertia ?M 2) [0..<n_agents (example_system (Fin 1))] = [Fin 2, Fin 4]"
    by (simp add: example_system_def upt_2 spec_inertia_def fsum_def)
  from compute_epistemic_inertia_block_traces [of example_mass "example_system (Fin 1)" ?M _ _ 2 4 4,
      OF build ags K k M n n]
  show ?thesis by (simp add: v)
qed













end
